theory Spec2Isabelle
  imports Complex_Main "HOL-Library.Multiset"
begin

section \<open>The quiz application of \<^verbatim>\<open>quiz.py\<close>\<close>

text \<open>
  The theory embeds the non-GUI part of \<^verbatim>\<open>src/quiz/quiz.py\<close>: the \<^verbatim>\<open>Question\<close>
  dataclass, \<^verbatim>\<open>load_questions\<close>, the \<^verbatim>\<open>DB\<close> class and the \<^verbatim>\<open>QuizEngine\<close> class.
  A method that mutates \<^verbatim>\<open>self\<close> takes the object and returns the pair of its outcome
  and the object as the call leaves it; the outcome is \<open>Inl\<close> of the exception raised or
  \<open>Inr\<close> of the value returned. In this way the assignments a method makes before it
  raises stay visible. Python's \<^verbatim>\<open>int\<close> is \<open>int\<close>; the floats of \<^verbatim>\<open>time.time()\<close> are
  taken as \<open>real\<close>, and the clock reading is an argument of the methods that read it.
\<close>

subsection \<open>Exceptions and list indexing\<close>

datatype error =
    FileNotFoundError string
  | JSONDecodeError
  | KeyError string
  | ValueError string
  | IndexError
  | OverflowError
  | OperationalError

text \<open>\<^verbatim>\<open>xs[i]\<close> on a Python list: a negative index counts from the end, and an index
  outside the list raises \<^verbatim>\<open>IndexError\<close>.\<close>

definition subscript :: "'a list \<Rightarrow> int \<Rightarrow> error + 'a" where
  "subscript xs i =
     (if 0 \<le> i \<and> i < int (length xs) then Inr (xs ! nat i)
      else if i < 0 \<and> 0 \<le> i + int (length xs) then Inr (xs ! nat (i + int (length xs)))
      else Inl IndexError)"

subsection \<open>The data model\<close>

text \<open>The frozen dataclass \<^verbatim>\<open>Question\<close>, at the field types it declares. The fields
  \<^verbatim>\<open>category\<close> and \<^verbatim>\<open>difficulty\<close> carry the prefix \<open>q_\<close>, since the engine has
  attributes of the same names.\<close>

record Question =
  q_category :: string
  question :: string
  options :: "string list"
  answer :: string
  q_difficulty :: string

subsection \<open>The random generator\<close>

text \<open>
  \<^verbatim>\<open>random.Random\<close> belongs to Python's standard library. Its state is taken as the
  stream of the raw numbers it will still produce: \<open>randbelow g n\<close> reduces the next raw
  number into \<open>[0, n)\<close> and moves on. \<^verbatim>\<open>Random.shuffle\<close> is the library's loop
  \<^verbatim>\<open>for i in reversed(range(1, len(x))): j = randbelow(i + 1); x[i], x[j] = x[j], x[i]\<close>.
\<close>

type_synonym rng = "nat \<Rightarrow> nat"

definition randbelow :: "rng \<Rightarrow> nat \<Rightarrow> nat \<times> rng" where
  "randbelow g n = (g 0 mod n, \<lambda>k. g (Suc k))"

fun shuffle_from :: "nat \<Rightarrow> 'a list \<Rightarrow> rng \<Rightarrow> 'a list \<times> rng" where
  "shuffle_from 0 xs g = (xs, g)"
| "shuffle_from (Suc i) xs g =
     (case randbelow g (Suc (Suc i)) of
        (j, g') \<Rightarrow> shuffle_from i (xs[Suc i := xs ! j, j := xs ! Suc i]) g')"

definition shuffle :: "'a list \<Rightarrow> rng \<Rightarrow> 'a list \<times> rng" where
  "shuffle xs g = shuffle_from (length xs - 1) xs g"

subsection \<open>The quiz engine\<close>

record QuizEngine =
  questions_all :: "Question list"
  rng :: rng
  pool :: "Question list"
  order :: "int list"
  index :: int
  score :: int
  started_at :: real
  category :: string
  difficulty :: string

definition reset_state :: "QuizEngine \<Rightarrow> QuizEngine" where
  "reset_state e =
     e\<lparr>pool := [], order := [], index := 0, score := 0, started_at := 0,
       category := ''Any'', difficulty := ''Any''\<rparr>"

text \<open>The constructor stores the questions and the generator and then calls
  \<^verbatim>\<open>reset_state\<close>; the generator created for \<^verbatim>\<open>rng=None\<close> is the argument \<open>fresh\<close>.\<close>

definition init :: "Question list \<Rightarrow> rng option \<Rightarrow> rng \<Rightarrow> QuizEngine" where
  "init questions r fresh =
     reset_state
       \<lparr>questions_all = questions,
        rng = (case r of Some g \<Rightarrow> g | None \<Rightarrow> fresh),
        pool = [], order = [], index = 0, score = 0, started_at = 0,
        category = [], difficulty = []\<rparr>"

text \<open>\<^verbatim>\<open>start\<close>; \<open>cnt\<close> is the argument \<^verbatim>\<open>count\<close> and \<open>now\<close> is the value
  \<^verbatim>\<open>time.time()\<close> returns in the last line.\<close>

definition start ::
  "QuizEngine \<Rightarrow> string \<Rightarrow> string \<Rightarrow> int \<Rightarrow> real \<Rightarrow> (error + unit) \<times> QuizEngine" where
  "start e cat diff cnt now =
     (let e1 = e\<lparr>category := cat, difficulty := diff\<rparr>;
          pool0 = filter (\<lambda>q. cat = ''Any'' \<or> q_category q = cat) (questions_all e1);
          pool1 = (if diff \<noteq> ''Any'' then filter (\<lambda>q. q_difficulty q = diff) pool0
                   else pool0);
          e2 = e1\<lparr>pool := pool1\<rparr>
      in if pool e2 = [] then (Inl (ValueError ''No questions match your filters.''), e2)
         else
           let clamped = min (max 1 cnt) (int (length (pool e2)));
               indices = map int [0..<length (pool e2)]
           in case shuffle indices (rng e2) of
                (shuffled, g') \<Rightarrow>
                  (Inr (),
                   e2\<lparr>rng := g', order := take (nat clamped) shuffled,
                      index := 0, score := 0, started_at := now\<rparr>))"

definition total_questions :: "QuizEngine \<Rightarrow> int" where
  "total_questions e = int (length (order e))"

definition current :: "QuizEngine \<Rightarrow> error + Question" where
  "current e =
     (case subscript (order e) (index e) of
        Inl err \<Rightarrow> Inl err
      | Inr i \<Rightarrow> subscript (pool e) i)"

definition is_finished :: "QuizEngine \<Rightarrow> bool" where
  "is_finished e = (index e \<ge> total_questions e)"

definition submit :: "QuizEngine \<Rightarrow> string option \<Rightarrow> (error + bool) \<times> QuizEngine" where
  "submit e selected =
     (case current e of
        Inl err \<Rightarrow> (Inl err, e)
      | Inr q \<Rightarrow>
          let correct = (selected = Some (answer q));
              e1 = (if correct then e\<lparr>score := score e + 1\<rparr> else e)
          in (Inr correct, e1\<lparr>index := index e1 + 1\<rparr>))"

text \<open>\<^verbatim>\<open>int(x)\<close> on a float truncates towards zero.\<close>

definition py_int :: "real \<Rightarrow> int" where
  "py_int x = (if 0 \<le> x then \<lfloor>x\<rfloor> else \<lceil>x\<rceil>)"

definition duration_seconds :: "QuizEngine \<Rightarrow> real \<Rightarrow> int" where
  "duration_seconds e now = py_int (max 0 (now - started_at e))"

text \<open>Some number of \<^verbatim>\<open>submit\<close> calls in a row, one per element of the list; the
  first exception ends the run.\<close>

fun submit_each :: "QuizEngine \<Rightarrow> string option list \<Rightarrow> (error + bool list) \<times> QuizEngine" where
  "submit_each e [] = (Inr [], e)"
| "submit_each e (s # ss) =
     (case submit e s of
        (Inl err, e') \<Rightarrow> (Inl err, e')
      | (Inr c, e') \<Rightarrow>
          (case submit_each e' ss of
             (Inl err, e'') \<Rightarrow> (Inl err, e'')
           | (Inr cs, e'') \<Rightarrow> (Inr (c # cs), e'')))"

subsection \<open>The filter in the words of the specification\<close>

text \<open>The pool as the specification describes it: the questions that pass the category
  filter and the difficulty filter, each a pass-through at \<^verbatim>\<open>"Any"\<close>. The code
  builds it in two stages; \<open>start_pool\<close> states that both agree.\<close>

definition matching_pool :: "Question list \<Rightarrow> string \<Rightarrow> string \<Rightarrow> Question list" where
  "matching_pool qs cat diff =
     filter (\<lambda>q. (cat = ''Any'' \<or> q_category q = cat) \<and> (diff = ''Any'' \<or> q_difficulty q = diff)) qs"

definition clamp :: "int \<Rightarrow> int \<Rightarrow> int \<Rightarrow> int" where
  "clamp x lo hi = (if x < lo then lo else if hi < x then hi else x)"

text \<open>The Idle state is the state \<^verbatim>\<open>reset_state\<close> leaves.\<close>

definition idle :: "QuizEngine \<Rightarrow> bool" where
  "idle e = (pool e = [] \<and> order e = [] \<and> index e = 0 \<and> score e = 0 \<and> started_at e = 0
             \<and> category e = ''Any'' \<and> difficulty e = ''Any'')"

text \<open>The invariants of a session, and the condition under which \<^verbatim>\<open>current\<close> finds
  its question: every entry of the order is an index into the pool.\<close>

definition session_inv :: "QuizEngine \<Rightarrow> bool" where
  "session_inv e = (0 \<le> score e \<and> score e \<le> index e \<and> index e \<le> int (length (order e)))"

definition order_in_pool :: "QuizEngine \<Rightarrow> bool" where
  "order_in_pool e = list_all (\<lambda>i. 0 \<le> i \<and> i < int (length (pool e))) (order e)"

subsection \<open>Loading the question bank\<close>

text \<open>
  \<^verbatim>\<open>load_questions\<close> reads the interpreter's settings and the file system; both are
  the record \<open>environment\<close>. \<open>files\<close> gives the regular files by path; a file either
  fails to parse as JSON or holds a document, taken at the shape the loader expects: the
  categories in the order of the file, each with its list of question objects. A question
  object is a dictionary in which each of the four keys may be absent; its values are
  taken at the types \<^verbatim>\<open>Question\<close> declares. Paths are joined as \<^verbatim>\<open>posixpath.join\<close> does.
\<close>

record item =
  item_question :: "string option"
  item_options :: "string list option"
  item_answer :: "string option"
  item_difficulty :: "string option"

datatype file_content = Unparsable | Document "(string \<times> item list) list"

record environment =
  meipass :: "string option"
  cwd :: string
  frozen :: bool
  executable_dir :: string
  module_dir :: string
  files :: "string \<Rightarrow> file_content option"

definition path_join :: "string \<Rightarrow> string \<Rightarrow> string" where
  "path_join a b =
     (if b \<noteq> [] \<and> hd b = CHR ''/'' then b
      else if a = [] \<or> last a = CHR ''/'' then a @ b
      else a @ ''/'' @ b)"

definition resource_path :: "environment \<Rightarrow> string \<Rightarrow> string" where
  "resource_path env rel_path =
     (case meipass env of
        Some d \<Rightarrow> path_join d rel_path
      | None \<Rightarrow> path_join (cwd env) rel_path)"

definition isfile :: "environment \<Rightarrow> string \<Rightarrow> bool" where
  "isfile env p = (files env p \<noteq> None)"

text \<open>The first block of \<^verbatim>\<open>load_questions\<close>: the path that will be opened.\<close>

definition locate :: "environment \<Rightarrow> string \<Rightarrow> error + string" where
  "locate env path =
     (let candidate = resource_path env path
      in if \<not> isfile env candidate then
           let base_dir = (if frozen env then executable_dir env else module_dir env);
               alt = path_join base_dir path
           in if isfile env alt then Inr alt
              else Inl (FileNotFoundError (path @ '' not found''))
         else Inr candidate)"

text \<open>The call \<^verbatim>\<open>Question(...)\<close> in the loop: the keyword arguments are evaluated from
  left to right, and \<^verbatim>\<open>q[key]\<close> raises \<^verbatim>\<open>KeyError\<close> at an absent key.\<close>

definition make_question :: "string \<Rightarrow> item \<Rightarrow> error + Question" where
  "make_question cat q =
     (case item_question q of
        None \<Rightarrow> Inl (KeyError ''question'')
      | Some qu \<Rightarrow>
     (case item_options q of
        None \<Rightarrow> Inl (KeyError ''options'')
      | Some os \<Rightarrow>
     (case item_answer q of
        None \<Rightarrow> Inl (KeyError ''answer'')
      | Some a \<Rightarrow>
          Inr \<lparr>q_category = cat, question = qu, options = os, answer = a,
               q_difficulty = (case item_difficulty q of None \<Rightarrow> ''Easy'' | Some d \<Rightarrow> d)\<rparr>)))"

fun load_items :: "string \<Rightarrow> item list \<Rightarrow> Question list \<Rightarrow> error + Question list" where
  "load_items cat [] out = Inr out"
| "load_items cat (q # qs) out =
     (case make_question cat q of
        Inl err \<Rightarrow> Inl err
      | Inr x \<Rightarrow> load_items cat qs (out @ [x]))"

fun load_categories :: "(string \<times> item list) list \<Rightarrow> Question list \<Rightarrow> error + Question list" where
  "load_categories [] out = Inr out"
| "load_categories ((cat, items) # rest) out =
     (case load_items cat items out of
        Inl err \<Rightarrow> Inl err
      | Inr out' \<Rightarrow> load_categories rest out')"

definition load_questions :: "environment \<Rightarrow> string \<Rightarrow> error + Question list" where
  "load_questions env path =
     (case locate env path of
        Inl err \<Rightarrow> Inl err
      | Inr candidate \<Rightarrow>
          (case files env candidate of
             None \<Rightarrow> Inl (FileNotFoundError candidate)
           | Some Unparsable \<Rightarrow> Inl JSONDecodeError
           | Some (Document raw) \<Rightarrow> load_categories raw []))"

text \<open>A question object has the three required keys.\<close>

definition complete :: "item \<Rightarrow> bool" where
  "complete q = (item_question q \<noteq> None \<and> item_options q \<noteq> None \<and> item_answer q \<noteq> None)"

definition all_items :: "(string \<times> item list) list \<Rightarrow> item list" where
  "all_items raw = concat (map snd raw)"

text \<open>The question a complete object stands for, and the bank a document stands for.\<close>

definition question_of :: "string \<Rightarrow> item \<Rightarrow> Question" where
  "question_of cat q =
     \<lparr>q_category = cat, question = the (item_question q), options = the (item_options q),
      answer = the (item_answer q),
      q_difficulty = (case item_difficulty q of None \<Rightarrow> ''Easy'' | Some d \<Rightarrow> d)\<rparr>"

definition bank_of :: "(string \<times> item list) list \<Rightarrow> Question list" where
  "bank_of raw = concat (map (\<lambda>(cat, items). map (question_of cat) items) raw)"

subsection \<open>The attempt log\<close>










subsection \<open>A sample bank\<close>

definition sample_questions :: "Question list" where
  "sample_questions =
     [\<lparr>q_category = ''Science'', question = ''Symbol of gold?'', options = [''Au'', ''Ag''],
       answer = ''Au'', q_difficulty = ''Easy''\<rparr>,
      \<lparr>q_category = ''Science'', question = ''Symbol of iron?'', options = [''Fe'', ''Ir''],
       answer = ''Fe'', q_difficulty = ''Hard''\<rparr>,
      \<lparr>q_category = ''History'', question = ''Year of Hastings?'', options = [''1066'', ''1166''],
       answer = ''1066'', q_difficulty = ''Easy''\<rparr>]"

definition sample_engine :: QuizEngine where
  "sample_engine = init sample_questions (Some (\<lambda>k. k)) (\<lambda>k. 0)"

definition sample_item :: item where
  "sample_item =
     \<lparr>item_question = Some ''Capital of France?'', item_options = Some [''London'', ''Rome''],
      item_answer = Some ''Paris'', item_difficulty = None\<rparr>"

definition sample_environment :: environment where
  "sample_environment =
     \<lparr>meipass = None, cwd = ''/app'', frozen = False, executable_dir = ''/usr/bin'',
      module_dir = ''/app/quiz'',
      files = (\<lambda>p. if p = ''/app/questions.json''
                    then Some (Document [(''Geography'', [sample_item])])
                  else if p = ''/app/quiz/broken.json''
                    then Some (Document [(''Geography'', [sample_item\<lparr>item_answer := None\<rparr>])])
                  else None)\<rparr>"

definition sample_session :: QuizEngine where
  "sample_session = snd (start sample_engine ''Any'' ''Any'' 2 10)"

definition sample_finished :: QuizEngine where
  "sample_finished = snd (submit_each sample_session [Some ''1066'', None])"


section \<open>Properties of the engine\<close>

subsection \<open>Lists, the shuffle and the filter\<close>

lemma shuffle_from_mset:
  "i < length xs \<Longrightarrow> mset (fst (shuffle_from i xs g)) = mset xs"
proof (induction i arbitrary: xs g)
  case 0
  then show ?case by simp
next
  case (Suc i)
  let ?j = "g 0 mod Suc (Suc i)"
  have j: "?j < length xs" using Suc.prems by (meson less_Suc_eq_le mod_less_divisor order_le_less_trans zero_less_Suc)
  have "mset (xs[Suc i := xs ! ?j, ?j := xs ! Suc i]) = mset xs"
    using Suc.prems j by (simp add: mset_swap)
  moreover have "i < length (xs[Suc i := xs ! ?j, ?j := xs ! Suc i])"
    using Suc.prems by simp
  ultimately show ?case
    using Suc.IH[of "xs[Suc i := xs ! ?j, ?j := xs ! Suc i]"]
    by (simp add: randbelow_def)
qed

lemma shuffle_mset: "mset (fst (shuffle xs g)) = mset xs"
  by (cases "xs = []") (simp_all add: shuffle_def shuffle_from_mset)

lemma two_stage_filter:
  "(if diff \<noteq> ''Any'' then filter (\<lambda>q. q_difficulty q = diff)
        (filter (\<lambda>q. cat = ''Any'' \<or> q_category q = cat) qs)
    else filter (\<lambda>q. cat = ''Any'' \<or> q_category q = cat) qs) = matching_pool qs cat diff"
  by (auto simp: matching_pool_def intro: filter_cong)

lemma clamp_min_max: "1 \<le> n \<Longrightarrow> min (max 1 c) n = clamp c 1 n"
  by (auto simp: clamp_def)

lemma start_pool: "pool (snd (start e cat diff cnt now)) = matching_pool (questions_all e) cat diff"
  by (simp add: start_def Let_def two_stage_filter split: prod.split)

lemma start_raises:
  assumes "matching_pool (questions_all e) cat diff = []"
  shows "start e cat diff cnt now =
    (Inl (ValueError ''No questions match your filters.''),
     e\<lparr>category := cat, difficulty := diff, pool := []\<rparr>)"
  using assms by (simp add: start_def Let_def two_stage_filter)

lemma start_returns:
  assumes "matching_pool (questions_all e) cat diff \<noteq> []"
  shows "start e cat diff cnt now =
    (Inr (),
     e\<lparr>category := cat, difficulty := diff,
       pool := matching_pool (questions_all e) cat diff,
       rng := snd (shuffle (map int [0..<length (matching_pool (questions_all e) cat diff)]) (rng e)),
       order := take (nat (clamp cnt 1 (int (length (matching_pool (questions_all e) cat diff)))))
                  (fst (shuffle (map int [0..<length (matching_pool (questions_all e) cat diff)]) (rng e))),
       index := 0, score := 0, started_at := now\<rparr>)"
proof -
  have "1 \<le> int (length (matching_pool (questions_all e) cat diff))"
    using assms by (cases "matching_pool (questions_all e) cat diff") simp_all
  then show ?thesis
    using assms by (simp add: start_def Let_def two_stage_filter clamp_min_max split: prod.split)
qed


lemma subscript_in_range:
  "0 \<le> i \<Longrightarrow> i < int (length xs) \<Longrightarrow> subscript xs i = Inr (xs ! nat i)"
  by (simp add: subscript_def)

lemma subscript_Inr_bound:
  "0 \<le> i \<Longrightarrow> subscript xs i = Inr x \<Longrightarrow> i < int (length xs)"
  by (auto simp: subscript_def split: if_splits)

lemma current_Inr_bound: "0 \<le> index e \<Longrightarrow> current e = Inr q \<Longrightarrow> index e < int (length (order e))"
  by (auto simp: current_def split: sum.splits dest: subscript_Inr_bound)

lemma current_in_session:
  assumes "order_in_pool e" "0 \<le> index e" "index e < int (length (order e))"
  shows "current e = Inr (pool e ! nat (order e ! nat (index e)))"
proof -
  have "nat (index e) < length (order e)" using assms by simp
  then have "order e ! nat (index e) \<in> set (order e)" by simp
  then have "0 \<le> order e ! nat (index e) \<and> order e ! nat (index e) < int (length (pool e))"
    using assms(1) by (simp add: order_in_pool_def list_all_iff)
  then show ?thesis
    using assms by (simp add: current_def subscript_in_range)
qed

lemma submit_raises:
  "current e = Inl err \<Longrightarrow> submit e selected = (Inl err, e)"
  by (simp add: submit_def)

lemma submit_returns:
  "current e = Inr q \<Longrightarrow>
   submit e selected =
     (Inr (selected = Some (answer q)),
      e\<lparr>score := score e + (if selected = Some (answer q) then 1 else 0),
        index := index e + 1\<rparr>)"
  by (simp add: submit_def Let_def)

lemma submit_cases:
  obtains err where "current e = Inl err" "submit e selected = (Inl err, e)"
  | q where "current e = Inr q"
      "submit e selected =
         (Inr (selected = Some (answer q)),
          e\<lparr>score := score e + (if selected = Some (answer q) then 1 else 0),
            index := index e + 1\<rparr>)"
  by (cases "current e") (auto simp: submit_raises submit_returns)

lemma submit_keeps_inv: "session_inv e \<Longrightarrow> session_inv (snd (submit e selected))"
proof (rule submit_cases[of e selected])
  fix err assume "submit e selected = (Inl err, e)" "session_inv e"
  then show ?thesis by simp
next
  fix q assume q: "current e = Inr q" and s: "submit e selected =
         (Inr (selected = Some (answer q)),
          e\<lparr>score := score e + (if selected = Some (answer q) then 1 else 0),
            index := index e + 1\<rparr>)" and inv: "session_inv e"
  from inv have "0 \<le> index e" by (simp add: session_inv_def)
  then have "index e < int (length (order e))" using q by (rule current_Inr_bound)
  with inv s show ?thesis by (simp add: session_inv_def)
qed

lemma submit_keeps_order_in_pool: "order_in_pool e \<Longrightarrow> order_in_pool (snd (submit e selected))"
  by (rule submit_cases[of e selected]) (simp_all add: order_in_pool_def)

lemma submit_keeps_started_at: "started_at (snd (submit e selected)) = started_at e"
  by (rule submit_cases[of e selected]) simp_all

lemma shuffled_indices:
  assumes "mset p = mset (map int [0..<n])"
  shows "distinct (take k p)" and "\<forall>i\<in>set (take k p). 0 \<le> i \<and> i < int n"
proof -
  have "distinct (map int [0..<n])" by (simp add: distinct_map)
  then have "distinct p" using assms by (metis mset_eq_imp_distinct_iff)
  then show "distinct (take k p)" by simp
  have "set p = set (map int [0..<n])" using assms by (rule mset_eq_setD)
  then have "\<forall>i\<in>set p. 0 \<le> i \<and> i < int n" by auto
  then show "\<forall>i\<in>set (take k p). 0 \<le> i \<and> i < int n" by (meson in_set_takeD)
qed

lemma start_establishes:
  assumes "start e cat diff cnt now = (Inr u, e')"
  shows "session_inv e'" and "order_in_pool e'" and "index e' = 0" and "score e' = 0"
    and "started_at e' = now" and "order e' \<noteq> []"
proof -
  let ?mp = "matching_pool (questions_all e) cat diff"
  have ne: "?mp \<noteq> []"
  proof
    assume "?mp = []"
    then show False using assms by (simp add: start_raises)
  qed
  let ?p = "fst (shuffle (map int [0..<length ?mp]) (rng e))"
  have e': "e' = e\<lparr>category := cat, difficulty := diff, pool := ?mp,
       rng := snd (shuffle (map int [0..<length ?mp]) (rng e)),
       order := take (nat (clamp cnt 1 (int (length ?mp)))) ?p,
       index := 0, score := 0, started_at := now\<rparr>"
    using assms start_returns[OF ne, of cnt now] by simp
  show "session_inv e'" by (simp add: e' session_inv_def)
  have p: "mset ?p = mset (map int [0..<length ?mp])" by (rule shuffle_mset)
  show "order_in_pool e'"
    using shuffled_indices(2)[OF p] by (simp add: e' order_in_pool_def list_all_iff)
  show "index e' = 0" "score e' = 0" "started_at e' = now" by (simp_all add: e')
  have "length ?p = length ?mp" using p by (metis length_map length_upt mset_eq_length minus_nat.diff_0)
  moreover have "1 \<le> clamp cnt 1 (int (length ?mp))" using ne by (cases ?mp) (auto simp: clamp_def)
  ultimately show "order e' \<noteq> []" using ne by (auto simp: e')
qed

lemma submit_each_keeps:
  assumes "submit_each e sels = (Inr cs, e')" "session_inv e" "order_in_pool e"
  shows "session_inv e' \<and> order_in_pool e' \<and> started_at e' = started_at e"
  using assms
proof (induction sels arbitrary: e cs)
  case Nil
  then show ?case by simp
next
  case (Cons s ss)
  obtain r e1 where s1: "submit e s = (r, e1)" by (cases "submit e s")
  with Cons.prems(1) obtain c where r: "r = Inr c" by (cases r) auto
  obtain r2 e2 where s2: "submit_each e1 ss = (r2, e2)" by (cases "submit_each e1 ss")
  with Cons.prems(1) s1 r obtain cs2 where r2: "r2 = Inr cs2" and e2: "e2 = e'" by (cases r2) auto
  have e1: "e1 = snd (submit e s)" using s1 by simp
  have "session_inv e1" "order_in_pool e1" "started_at e1 = started_at e"
    using Cons.prems(2,3) by (simp_all add: e1 submit_keeps_inv submit_keeps_order_in_pool submit_keeps_started_at)
  then show ?case using Cons.IH[of e1 cs2] s2 r2 e2 by simp
qed

lemma submit_each_runs:
  assumes "order_in_pool e" "0 \<le> index e" "index e + int (length sels) \<le> int (length (order e))"
  shows "\<exists>cs e'. submit_each e sels = (Inr cs, e') \<and> length cs = length sels
           \<and> index e' = index e + int (length sels) \<and> order e' = order e"
  using assms
proof (induction sels arbitrary: e)
  case Nil
  then show ?case by simp
next
  case (Cons s ss)
  have "index e < int (length (order e))" using Cons.prems(3) by simp
  then have cur: "current e = Inr (pool e ! nat (order e ! nat (index e)))"
    using Cons.prems(1,2) by (simp add: current_in_session)
  define e1 where "e1 = snd (submit e s)"
  obtain c where s1: "submit e s = (Inr c, e1)" and i1: "index e1 = index e + 1"
    and o1: "order e1 = order e"
    unfolding e1_def using submit_returns[OF cur, of s] by simp
  have "order_in_pool e1" unfolding e1_def using Cons.prems(1) by (rule submit_keeps_order_in_pool)
  moreover have "0 \<le> index e1" using i1 Cons.prems(2) by simp
  moreover have "index e1 + int (length ss) \<le> int (length (order e1))"
    using i1 o1 Cons.prems(3) by simp
  ultimately obtain cs e' where "submit_each e1 ss = (Inr cs, e')" "length cs = length ss"
    "index e' = index e1 + int (length ss)" "order e' = order e1"
    using Cons.IH[of e1] by blast
  then show ?case using s1 i1 o1 by simp
qed

lemma session_reached:
  assumes "start e cat diff cnt now = (Inr (), e0)" "submit_each e0 sels = (Inr cs, s)"
  shows "session_inv s" and "order_in_pool s" and "started_at s = now"
proof -
  have "session_inv e0" "order_in_pool e0" "started_at e0 = now"
    using assms(1) by (rule start_establishes)+
  then show "session_inv s" "order_in_pool s" "started_at s = now"
    using submit_each_keeps[OF assms(2)] by simp_all
qed

lemma finished_iff: "session_inv e \<Longrightarrow> is_finished e = (index e = int (length (order e)))"
  by (auto simp: session_inv_def is_finished_def total_questions_def)

subsection \<open>Sessions\<close>

text \<open>
  Claim C3. A successful \<^verbatim>\<open>start\<close> leaves \<open>0 \<le> score \<le> index \<le> len(order)\<close>; every
  \<^verbatim>\<open>submit\<close>, whether it returns or raises, keeps it; so it holds in every state a
  session reaches by \<^verbatim>\<open>submit\<close> calls; and under it \<^verbatim>\<open>is_finished\<close>, which the code
  writes as \<open>index \<ge> total\<close>, holds exactly when the index equals the length of the order.
\<close>

theorem session_invariants:
  "(start e cat diff cnt now = (Inr (), e0) \<longrightarrow> session_inv e0) \<and>
   (session_inv s \<longrightarrow> session_inv (snd (submit s selected))) \<and>
   (start e cat diff cnt now = (Inr (), e0) \<and> submit_each e0 sels = (Inr cs, s) \<longrightarrow> session_inv s) \<and>
   (session_inv s \<longrightarrow> is_finished s = (index s = int (length (order s))))"
  using start_establishes(1) submit_keeps_inv session_reached(1) finished_iff by blast

text \<open>
  Claim C5. In every unfinished state of a session (a successful \<^verbatim>\<open>start\<close> followed by
  \<^verbatim>\<open>submit\<close> calls that returned), \<^verbatim>\<open>submit\<close> finds the current question \<open>q\<close>, returns
  whether the selection is the string \<^verbatim>\<open>q.answer\<close>, adds one to the score exactly in that
  case, adds one to the index in both cases and changes nothing else. The selection
  \<^verbatim>\<open>None\<close> returns \<^verbatim>\<open>False\<close> and changes the index alone.
\<close>

theorem submit_scores:
  assumes "start e cat diff cnt now = (Inr (), e0)" "submit_each e0 sels = (Inr cs, s)"
    and "\<not> is_finished s"
  shows "\<exists>q. current s = Inr q \<and>
           submit s selected =
             (Inr (selected = Some (answer q)),
              s\<lparr>score := (if selected = Some (answer q) then score s + 1 else score s),
                index := index s + 1\<rparr>) \<and>
           submit s None = (Inr False, s\<lparr>index := index s + 1\<rparr>)"
proof -
  have inv: "session_inv s" "order_in_pool s" using assms(1,2) by (rule session_reached)+
  then have "0 \<le> index s" "index s < int (length (order s))"
    using assms(3) by (simp_all add: session_inv_def is_finished_def total_questions_def)
  then have cur: "current s = Inr (pool s ! nat (order s ! nat (index s)))"
    using inv(2) by (simp add: current_in_session)
  show ?thesis
    using submit_returns[OF cur, of selected] submit_returns[OF cur, of None] cur by simp
qed

text \<open>
  Claim C6. From a successful \<^verbatim>\<open>start\<close>, any number of \<^verbatim>\<open>submit\<close> calls up to the
  total all return; the index then is the number of calls, the total is unchanged, and
  \<^verbatim>\<open>is_finished\<close> holds exactly when the number of calls is the total, which is exactly
  when the index equals the total.
\<close>

theorem finished_after_total:
  assumes "start e cat diff cnt now = (Inr (), e0)" "int (length sels) \<le> total_questions e0"
  shows "\<exists>cs s. submit_each e0 sels = (Inr cs, s) \<and> length cs = length sels
           \<and> index s = int (length sels) \<and> total_questions s = total_questions e0
           \<and> is_finished s = (int (length sels) = total_questions e0)
           \<and> is_finished s = (index s = total_questions s)"
proof -
  have e0: "order_in_pool e0" "index e0 = 0" using assms(1) by (rule start_establishes)+
  then obtain cs s where run: "submit_each e0 sels = (Inr cs, s)" "length cs = length sels"
    "index s = index e0 + int (length sels)" "order s = order e0"
    using submit_each_runs[of e0 sels] assms(2) by (auto simp: total_questions_def)
  then show ?thesis
    using e0(2) assms(2) by (auto simp: is_finished_def total_questions_def)
qed

text \<open>
  Claim C4. When the filtered pool is not empty, \<^verbatim>\<open>start\<close> returns; the pool it stores
  is the filtered pool; the total is the requested count clamped to \<open>[1, len(pool)]\<close>;
  the order is the prefix of that length of a permutation of the pool's indices; the
  order has no duplicate, and each of its entries is an index into the pool.
\<close>

theorem start_selection:
  assumes "matching_pool (questions_all e) cat diff \<noteq> []"
  shows "\<exists>e'. start e cat diff cnt now = (Inr (), e')
           \<and> pool e' = matching_pool (questions_all e) cat diff
           \<and> total_questions e' = clamp cnt 1 (int (length (pool e')))
           \<and> (\<exists>p. mset p = mset (map int [0..<length (pool e')])
                  \<and> order e' = take (nat (total_questions e')) p)
           \<and> distinct (order e')
           \<and> order_in_pool e'"
proof -
  let ?mp = "matching_pool (questions_all e) cat diff"
  let ?p = "fst (shuffle (map int [0..<length ?mp]) (rng e))"
  let ?k = "nat (clamp cnt 1 (int (length ?mp)))"
  define e' where "e' = snd (start e cat diff cnt now)"
  have st: "start e cat diff cnt now = (Inr (), e')" and po: "pool e' = ?mp"
    and ord: "order e' = take ?k ?p"
    unfolding e'_def using start_returns[OF assms, of cnt now] by simp_all
  have p: "mset ?p = mset (map int [0..<length ?mp])" by (rule shuffle_mset)
  then have len: "length ?p = length ?mp" by (metis length_map length_upt mset_eq_length minus_nat.diff_0)
  have "1 \<le> int (length ?mp)" using assms by (cases ?mp) simp_all
  then have k: "1 \<le> clamp cnt 1 (int (length ?mp))" "clamp cnt 1 (int (length ?mp)) \<le> int (length ?mp)"
    by (auto simp: clamp_def)
  then have tot: "total_questions e' = clamp cnt 1 (int (length (pool e')))"
    using len by (simp add: total_questions_def ord po)
  have "order e' = take (nat (total_questions e')) ?p" using tot by (simp add: ord po)
  with p have "\<exists>p. mset p = mset (map int [0..<length (pool e')])
                  \<and> order e' = take (nat (total_questions e')) p" unfolding po by blast
  moreover have "distinct (order e')" unfolding ord using p by (rule shuffled_indices(1))
  moreover have "order_in_pool e'"
    using st by (rule start_establishes(2))
  ultimately show ?thesis using st po tot by blast
qed

subsection \<open>A filter without a match, and the clock\<close>

lemma idle_pool_update: "idle e \<Longrightarrow> e\<lparr>category := cat, difficulty := diff, pool := []\<rparr> = e\<lparr>category := cat, difficulty := diff\<rparr>"
  by (simp add: idle_def)

text \<open>
  Claim C1, as amended. On an Idle engine and a filter that matches no question,
  \<^verbatim>\<open>start\<close> raises \<^verbatim>\<open>ValueError\<close>, and the engine it leaves differs from the engine it
  was given in the attributes \<^verbatim>\<open>category\<close> and \<^verbatim>\<open>difficulty\<close> alone, which hold the
  requested filter: pool, order, index, score and start timestamp are as before, and no
  session is started.
\<close>

theorem start_no_match:
  assumes "idle e" "matching_pool (questions_all e) cat diff = []"
  shows "start e cat diff cnt now =
           (Inl (ValueError ''No questions match your filters.''),
            e\<lparr>category := cat, difficulty := diff\<rparr>)"
  using assms by (simp add: start_raises idle_pool_update)

lemma py_int_nonneg: "0 \<le> x \<Longrightarrow> py_int x = \<lfloor>x\<rfloor>"
  by (simp add: py_int_def)

lemma duration_seconds_floor: "duration_seconds e t = \<lfloor>max 0 (t - started_at e)\<rfloor>"
  by (simp add: duration_seconds_def py_int_nonneg)

lemma duration_seconds_mono:
  "started_at e1 = started_at e2 \<Longrightarrow> t1 \<le> t2 \<Longrightarrow> duration_seconds e1 t1 \<le> duration_seconds e2 t2"
  unfolding duration_seconds_floor by (intro floor_mono) auto

text \<open>
  Claim C7. In a session started at clock reading \<open>t0\<close>, \<^verbatim>\<open>duration_seconds\<close> read at
  \<open>t\<close> is \<open>t - t0\<close> floored at 0 and cut to whole seconds; it is never negative; and a
  reading at \<open>t1\<close> is at most a later reading at \<open>t2\<close> of the same session, also when
  \<^verbatim>\<open>submit\<close> calls lie between the two.
\<close>

theorem duration_seconds_elapsed:
  assumes "start e cat diff cnt t0 = (Inr (), s0)"
    and "submit_each s0 sels1 = (Inr cs1, s1)" and "submit_each s1 sels2 = (Inr cs2, s2)"
  shows "duration_seconds s1 t = \<lfloor>max 0 (t - t0)\<rfloor> \<and> 0 \<le> duration_seconds s1 t
         \<and> (t1 \<le> t2 \<longrightarrow> duration_seconds s1 t1 \<le> duration_seconds s2 t2)"
proof -
  have s1: "started_at s1 = t0" "session_inv s1" "order_in_pool s1"
    using assms(1,2) by (rule session_reached)+
  have s2: "started_at s2 = started_at s1"
    using submit_each_keeps[OF assms(3) s1(2,3)] by simp
  show ?thesis
    using s1(1) s2 duration_seconds_mono[of s1 s2 t1 t2]
    by (simp add: duration_seconds_floor)
qed

lemma idle_reset: "idle (reset_state e)"
  by (simp add: idle_def reset_state_def)

text \<open>
  Claim C10. \<^verbatim>\<open>reset_state\<close> and the constructor leave the Idle state; there the start
  timestamp is 0, so \<^verbatim>\<open>duration_seconds\<close> at a clock reading \<open>now \<ge> 0\<close> (seconds since
  the epoch) is \<open>now\<close> cut to whole seconds, which is positive from \<open>now = 1\<close> on and not 0.
\<close>

theorem idle_duration:
  "idle (reset_state e) \<and> idle (init qs r fresh) \<and>
   (idle s \<longrightarrow> started_at s = 0) \<and>
   (idle s \<and> 0 \<le> now \<longrightarrow> duration_seconds s now = \<lfloor>now\<rfloor>) \<and>
   (idle s \<and> 1 \<le> now \<longrightarrow> 0 < duration_seconds s now)"
proof -
  have "idle (reset_state e)" "idle (init qs r fresh)"
    by (simp_all add: idle_reset init_def)
  moreover have "idle s \<longrightarrow> started_at s = 0" by (simp add: idle_def)
  moreover have "idle s \<and> 0 \<le> now \<longrightarrow> duration_seconds s now = \<lfloor>now\<rfloor>"
    by (simp add: idle_def duration_seconds_floor)
  moreover have "idle s \<and> 1 \<le> now \<longrightarrow> 0 < duration_seconds s now"
    by (simp add: idle_def duration_seconds_floor)
  ultimately show ?thesis by blast
qed

section \<open>Properties of the attempt log\<close>












section \<open>Properties of the loader\<close>

lemma make_question_complete: "complete q \<Longrightarrow> make_question cat q = Inr (question_of cat q)"
  by (auto simp: complete_def make_question_def question_of_def)

lemma make_question_incomplete:
  "\<not> complete q \<Longrightarrow> \<exists>k\<in>set [''question'', ''options'', ''answer'']. make_question cat q = Inl (KeyError k)"
  by (auto simp: complete_def make_question_def split: option.splits)

lemma load_items_complete:
  "list_all complete items \<Longrightarrow> load_items cat items out = Inr (out @ map (question_of cat) items)"
  by (induction items arbitrary: out) (simp_all add: make_question_complete)

lemma load_items_incomplete:
  "\<not> list_all complete items \<Longrightarrow>
   \<exists>k\<in>set [''question'', ''options'', ''answer'']. load_items cat items out = Inl (KeyError k)"
proof (induction items arbitrary: out)
  case Nil
  then show ?case by simp
next
  case (Cons q qs)
  show ?case
  proof (cases "complete q")
    case True
    then have "\<not> list_all complete qs" using Cons.prems by simp
    then show ?thesis using Cons.IH[of "out @ [question_of cat q]"] True
      by (simp add: make_question_complete)
  next
    case False
    then show ?thesis using make_question_incomplete[OF False, of cat] by auto
  qed
qed

lemma load_categories_complete:
  "list_all complete (all_items raw) \<Longrightarrow> load_categories raw out = Inr (out @ bank_of raw)"
  by (induction raw arbitrary: out) (auto simp: all_items_def bank_of_def load_items_complete)

lemma load_categories_incomplete:
  "\<not> list_all complete (all_items raw) \<Longrightarrow>
   \<exists>k\<in>set [''question'', ''options'', ''answer'']. load_categories raw out = Inl (KeyError k)"
proof (induction raw arbitrary: out)
  case Nil
  then show ?case by (simp add: all_items_def)
next
  case (Cons ci rest)
  obtain cat items where ci: "ci = (cat, items)" by (cases ci)
  show ?case
  proof (cases "list_all complete items")
    case True
    then have "\<not> list_all complete (all_items rest)" using Cons.prems by (simp add: all_items_def ci)
    then show ?thesis using Cons.IH[of "out @ map (question_of cat) items"] True
      by (simp add: ci load_items_complete)
  next
    case False
    then show ?thesis using load_items_incomplete[OF False, of cat out] by (auto simp: ci)
  qed
qed

text \<open>
  Claim C2, as amended. \<^verbatim>\<open>load_questions\<close> raises \<^verbatim>\<open>FileNotFoundError\<close> when neither
  candidate path is a file. On a document in which some question object lacks one of the
  keys \<^verbatim>\<open>question\<close>, \<^verbatim>\<open>options\<close>, \<^verbatim>\<open>answer\<close> it raises \<^verbatim>\<open>KeyError\<close> of such a key.
  On a document in which every object has the three keys it returns the whole bank, one
  question per object in the order of the file; whether an answer is among its options
  plays no part.
\<close>

theorem load_questions_outcome:
  "(\<not> isfile env (resource_path env path)
      \<and> \<not> isfile env (path_join (if frozen env then executable_dir env else module_dir env) path)
    \<longrightarrow> load_questions env path = Inl (FileNotFoundError (path @ '' not found''))) \<and>
   (locate env path = Inr p \<and> files env p = Some (Document raw) \<and> \<not> list_all complete (all_items raw)
    \<longrightarrow> (\<exists>k\<in>set [''question'', ''options'', ''answer'']. load_questions env path = Inl (KeyError k))) \<and>
   (locate env path = Inr p \<and> files env p = Some (Document raw) \<and> list_all complete (all_items raw)
    \<longrightarrow> load_questions env path = Inr (bank_of raw))"
  using load_categories_incomplete[of raw "[]"]
  by (auto simp: load_questions_def locate_def Let_def load_categories_complete)

section \<open>Calls outside a session\<close>

lemma subscript_at_length: "subscript xs (int (length xs)) = Inl IndexError"
  by (simp add: subscript_def)

text \<open>
  Claim C9. When the position equals the length of the order (a finished session, or an
  engine that was never started and has the empty order), \<^verbatim>\<open>submit\<close> raises
  \<^verbatim>\<open>IndexError\<close> from the lookup of the current question, before it assigns anything:
  the engine it leaves is the engine it was given.
\<close>

theorem submit_at_end_raises:
  "index e = int (length (order e)) \<Longrightarrow> submit e selected = (Inl IndexError, e)"
  by (simp add: submit_def current_def subscript_at_length)

section \<open>The sample bank, session, log and environment\<close>

lemma sample_engine_fields:
  "questions_all sample_engine = sample_questions" "rng sample_engine = (\<lambda>k. k)"
  "pool sample_engine = []" "order sample_engine = []" "index sample_engine = 0"
  "score sample_engine = 0" "started_at sample_engine = 0"
  "category sample_engine = ''Any''" "difficulty sample_engine = ''Any''"
  by (simp_all add: sample_engine_def init_def reset_state_def)

lemma sample_pool_any: "matching_pool sample_questions ''Any'' ''Any'' = sample_questions"
  by (simp add: matching_pool_def)

lemma sample_pool_none: "matching_pool sample_questions ''History'' ''Hard'' = []"
  by (simp add: matching_pool_def sample_questions_def)

lemma sample_shuffle: "shuffle [0, 1, 2 :: int] (\<lambda>k. k) = ([2, 1, 0], \<lambda>k. Suc (Suc k))"
  by (simp add: shuffle_def randbelow_def numeral_2_eq_2)

lemma sample_indices: "map int [0..<3] = [0, 1, 2]"
  by (simp add: upt_rec)

lemma sample_start:
  "start sample_engine ''Any'' ''Any'' 2 10 = (Inr (), sample_session)"
  "pool sample_session = sample_questions" "order sample_session = [2, 1]"
  "index sample_session = 0" "score sample_session = 0" "started_at sample_session = 10"
proof -
  have ne: "matching_pool (questions_all sample_engine) ''Any'' ''Any'' \<noteq> []"
    by (simp add: sample_engine_fields sample_pool_any) (simp add: sample_questions_def)
  have len: "length sample_questions = 3" by (simp add: sample_questions_def)
  show "start sample_engine ''Any'' ''Any'' 2 10 = (Inr (), sample_session)"
    unfolding sample_session_def using start_returns[OF ne, of 2 10] by simp
  show "pool sample_session = sample_questions" "order sample_session = [2, 1]"
  "index sample_session = 0" "score sample_session = 0" "started_at sample_session = 10"
    unfolding sample_session_def using start_returns[OF ne, of 2 10]
    by (simp_all add: sample_engine_fields sample_pool_any sample_indices sample_shuffle clamp_def len)
qed

lemma sample_run:
  "submit_each sample_session [Some ''1066'', None] = (Inr [True, False], sample_finished)"
  "order sample_finished = [2, 1]" "index sample_finished = 2" "score sample_finished = 1"
  "started_at sample_finished = 10"
proof -
  have r: "fst (submit_each sample_session [Some ''1066'', None]) = Inr [True, False]"
    by (simp add: submit_def current_def subscript_def sample_start sample_questions_def)
  then show "submit_each sample_session [Some ''1066'', None] = (Inr [True, False], sample_finished)"
    unfolding sample_finished_def by (metis prod.collapse)
  show "order sample_finished = [2, 1]" "index sample_finished = 2" "score sample_finished = 1"
    "started_at sample_finished = 10"
    unfolding sample_finished_def
    by (simp_all add: submit_def current_def subscript_def sample_start sample_questions_def)
qed

text \<open>The finished sample session and the sample engine, which was never started, are both
  at the end of their order.\<close>

theorem submit_at_end_raises_witness:
  "index sample_finished = int (length (order sample_finished)) \<and>
   submit sample_finished (Some ''Fe'') = (Inl IndexError, sample_finished) \<and>
   index sample_engine = int (length (order sample_engine)) \<and>
   submit sample_engine None = (Inl IndexError, sample_engine)"
  using submit_at_end_raises[of sample_finished "Some ''Fe''"]
    submit_at_end_raises[of sample_engine None]
  by (simp add: sample_run sample_engine_fields)

lemma sample_idle: "idle sample_engine"
  by (simp add: idle_def sample_engine_fields)

text \<open>On the Idle sample engine, no question is both in category History and of difficulty
  Hard. \<^verbatim>\<open>start\<close> raises, and the engine it leaves is not the engine it was given: the
  attributes \<^verbatim>\<open>category\<close> and \<^verbatim>\<open>difficulty\<close> were assigned before the pool was tested.\<close>

theorem start_no_match_counterexample:
  "idle sample_engine \<and>
   matching_pool (questions_all sample_engine) ''History'' ''Hard'' = [] \<and>
   fst (start sample_engine ''History'' ''Hard'' 5 0)
     = Inl (ValueError ''No questions match your filters.'') \<and>
   category sample_engine = ''Any'' \<and>
   category (snd (start sample_engine ''History'' ''Hard'' 5 0)) = ''History'' \<and>
   difficulty sample_engine = ''Any'' \<and>
   difficulty (snd (start sample_engine ''History'' ''Hard'' 5 0)) = ''Hard'' \<and>
   snd (start sample_engine ''History'' ''Hard'' 5 0) \<noteq> sample_engine"
proof -
  have m: "matching_pool (questions_all sample_engine) ''History'' ''Hard'' = []"
    by (simp add: sample_engine_fields sample_pool_none)
  have c: "category (snd (start sample_engine ''History'' ''Hard'' 5 0)) = ''History''"
    by (simp add: start_raises[OF m])
  have "category sample_engine \<noteq> ''History''" by (simp add: sample_engine_fields)
  with c have "snd (start sample_engine ''History'' ''Hard'' 5 0) \<noteq> sample_engine" by metis
  then show ?thesis
    using m c by (simp add: sample_idle start_raises[OF m] sample_engine_fields)
qed

text \<open>The same call: the engine it leaves is the sample engine with the two attributes set.\<close>

theorem start_no_match_witness:
  "idle sample_engine \<and>
   matching_pool (questions_all sample_engine) ''History'' ''Hard'' = [] \<and>
   start sample_engine ''History'' ''Hard'' 5 0 =
     (Inl (ValueError ''No questions match your filters.''),
      sample_engine\<lparr>category := ''History'', difficulty := ''Hard''\<rparr>)"
  using start_no_match[of sample_engine "''History''" "''Hard''" 5 0]
  by (simp add: sample_idle sample_engine_fields sample_pool_none)

text \<open>The sample session, started with two questions and run to its end, keeps the
  invariants at each step.\<close>

theorem session_invariants_witness:
  "start sample_engine ''Any'' ''Any'' 2 10 = (Inr (), sample_session) \<and>
   submit_each sample_session [Some ''1066'', None] = (Inr [True, False], sample_finished) \<and>
   session_inv sample_session \<and> session_inv sample_finished \<and>
   session_inv (snd (submit sample_finished (Some ''Fe''))) \<and>
   is_finished sample_finished = (index sample_finished = int (length (order sample_finished)))"
  using session_invariants[of sample_engine "''Any''" "''Any''" 2 10 sample_session
      sample_finished "Some ''Fe''" "[Some ''1066'', None]" "[True, False]"]
    session_invariants[of sample_engine "''Any''" "''Any''" 2 10 sample_session
      sample_session "Some ''Fe''" "[]" "[]"]
  by (simp add: sample_start sample_run del: submit_each.simps(2))

text \<open>The sample session right after \<^verbatim>\<open>start\<close> is unfinished.\<close>

theorem submit_scores_witness:
  "start sample_engine ''Any'' ''Any'' 2 10 = (Inr (), sample_session) \<and>
   submit_each sample_session [] = (Inr [], sample_session) \<and>
   \<not> is_finished sample_session \<and>
   (\<exists>q. current sample_session = Inr q \<and>
      submit sample_session (Some ''1066'') =
        (Inr (Some ''1066'' = Some (answer q)),
         sample_session\<lparr>score := (if Some ''1066'' = Some (answer q)
                                    then score sample_session + 1 else score sample_session),
                         index := index sample_session + 1\<rparr>) \<and>
      submit sample_session None = (Inr False, sample_session\<lparr>index := index sample_session + 1\<rparr>))"
  using submit_scores[of sample_engine "''Any''" "''Any''" 2 10 sample_session "[]" "[]"
      sample_session "Some ''1066''"]
  by (simp add: sample_start is_finished_def total_questions_def)

text \<open>Two calls in the sample session of two questions.\<close>

theorem finished_after_total_witness:
  "start sample_engine ''Any'' ''Any'' 2 10 = (Inr (), sample_session) \<and>
   int (length [Some ''1066'', None]) \<le> total_questions sample_session \<and>
   (\<exists>cs s. submit_each sample_session [Some ''1066'', None] = (Inr cs, s)
      \<and> length cs = length [Some ''1066'', None :: string option]
      \<and> index s = int (length [Some ''1066'', None :: string option])
      \<and> total_questions s = total_questions sample_session
      \<and> is_finished s = (int (length [Some ''1066'', None :: string option]) = total_questions sample_session)
      \<and> is_finished s = (index s = total_questions s))"
  using finished_after_total[of sample_engine "''Any''" "''Any''" 2 10 sample_session
      "[Some ''1066'', None]"]
  by (simp add: sample_start total_questions_def)

text \<open>The sample bank under the filter Any/Any.\<close>

theorem start_selection_witness:
  "matching_pool (questions_all sample_engine) ''Any'' ''Any'' \<noteq> [] \<and>
   (\<exists>e'. start sample_engine ''Any'' ''Any'' 2 10 = (Inr (), e')
      \<and> pool e' = matching_pool (questions_all sample_engine) ''Any'' ''Any''
      \<and> total_questions e' = clamp 2 1 (int (length (pool e')))
      \<and> (\<exists>p. mset p = mset (map int [0..<length (pool e')])
             \<and> order e' = take (nat (total_questions e')) p)
      \<and> distinct (order e')
      \<and> order_in_pool e')"
proof -
  have ne: "matching_pool (questions_all sample_engine) ''Any'' ''Any'' \<noteq> []"
    by (simp add: sample_engine_fields sample_pool_any) (simp add: sample_questions_def)
  show ?thesis
    using ne start_selection[OF ne, of 2 10] by simp
qed

text \<open>The sample session starts at clock reading 10; it is read at 12, 12.5 and 13.5.\<close>

theorem duration_seconds_elapsed_witness:
  "start sample_engine ''Any'' ''Any'' 2 10 = (Inr (), sample_session) \<and>
   submit_each sample_session [] = (Inr [], sample_session) \<and>
   submit_each sample_session [Some ''1066'', None] = (Inr [True, False], sample_finished) \<and>
   duration_seconds sample_session (25 / 2) = 2 \<and>
   0 \<le> duration_seconds sample_session (25 / 2) \<and>
   (12 :: real) \<le> 27 / 2 \<and>
   duration_seconds sample_session 12 \<le> duration_seconds sample_finished (27 / 2)"
  using duration_seconds_elapsed[of sample_engine "''Any''" "''Any''" 2 10 sample_session
      "[]" "[]" sample_session "[Some ''1066'', None]" "[True, False]" sample_finished
      "25 / 2" 12 "27 / 2"]
  by (simp add: sample_start sample_run del: submit_each.simps(2))

text \<open>The Idle sample engine at clock reading 1700000000.5.\<close>

theorem idle_duration_witness:
  "idle sample_engine \<and> (0 :: real) \<le> 3400000001 / 2 \<and> (1 :: real) \<le> 3400000001 / 2 \<and>
   started_at sample_engine = 0 \<and>
   duration_seconds sample_engine (3400000001 / 2) = 1700000000 \<and>
   0 < duration_seconds sample_engine (3400000001 / 2)"
  using idle_duration[where s = sample_engine and now = "3400000001 / 2"]
  by (simp add: sample_idle)






lemma sample_paths:
  "resource_path sample_environment p = path_join ''/app'' p"
  "frozen sample_environment = False" "module_dir sample_environment = ''/app/quiz''"
  by (simp_all add: sample_environment_def resource_path_def)

lemma sample_files:
  "files sample_environment ''/app/questions.json'' = Some (Document [(''Geography'', [sample_item])])"
  "files sample_environment ''/app/quiz/broken.json''
     = Some (Document [(''Geography'', [sample_item\<lparr>item_answer := None\<rparr>])])"
  "files sample_environment ''/app/broken.json'' = None"
  "files sample_environment ''/app/missing.json'' = None"
  "files sample_environment ''/app/quiz/missing.json'' = None"
  by (simp_all add: sample_environment_def)

lemma sample_locate:
  "locate sample_environment ''questions.json'' = Inr ''/app/questions.json''"
  "locate sample_environment ''broken.json'' = Inr ''/app/quiz/broken.json''"
  by (simp_all add: locate_def isfile_def sample_paths path_join_def sample_files)

text \<open>The file \<^verbatim>\<open>/app/questions.json\<close> of the sample environment holds one question object
  whose answer, Paris, is not among its options. \<^verbatim>\<open>load_questions\<close> returns it.\<close>

theorem load_answer_unchecked_counterexample:
  "load_questions sample_environment ''questions.json''
     = Inr [\<lparr>q_category = ''Geography'', question = ''Capital of France?'',
             options = [''London'', ''Rome''], answer = ''Paris'', q_difficulty = ''Easy''\<rparr>] \<and>
   ''Paris'' \<notin> set [''London'', ''Rome'']"
  by (simp add: load_questions_def sample_locate sample_files make_question_def sample_item_def)

text \<open>The sample environment has no file \<^verbatim>\<open>missing.json\<close>, a file \<^verbatim>\<open>broken.json\<close> beside the
  module whose question object has no answer, and the file \<^verbatim>\<open>questions.json\<close>.\<close>

theorem load_questions_outcome_witness:
  "\<not> isfile sample_environment (resource_path sample_environment ''missing.json'') \<and>
   \<not> isfile sample_environment
       (path_join (if frozen sample_environment then executable_dir sample_environment
                   else module_dir sample_environment) ''missing.json'') \<and>
   load_questions sample_environment ''missing.json''
     = Inl (FileNotFoundError ''missing.json not found'') \<and>
   locate sample_environment ''broken.json'' = Inr ''/app/quiz/broken.json'' \<and>
   files sample_environment ''/app/quiz/broken.json''
     = Some (Document [(''Geography'', [sample_item\<lparr>item_answer := None\<rparr>])]) \<and>
   \<not> list_all complete (all_items [(''Geography'', [sample_item\<lparr>item_answer := None\<rparr>])]) \<and>
   load_questions sample_environment ''broken.json'' = Inl (KeyError ''answer'') \<and>
   locate sample_environment ''questions.json'' = Inr ''/app/questions.json'' \<and>
   files sample_environment ''/app/questions.json''
     = Some (Document [(''Geography'', [sample_item])]) \<and>
   list_all complete (all_items [(''Geography'', [sample_item])]) \<and>
   load_questions sample_environment ''questions.json''
     = Inr (bank_of [(''Geography'', [sample_item])])"
proof -
  have a: "\<not> isfile sample_environment (resource_path sample_environment ''missing.json'')"
    "\<not> isfile sample_environment
       (path_join (if frozen sample_environment then executable_dir sample_environment
                   else module_dir sample_environment) ''missing.json'')"
    by (simp_all add: isfile_def sample_paths path_join_def sample_files)
  have b: "\<not> list_all complete (all_items [(''Geography'', [sample_item\<lparr>item_answer := None\<rparr>])])"
    by (simp add: all_items_def complete_def)
  have c: "list_all complete (all_items [(''Geography'', [sample_item])])"
    by (simp add: all_items_def complete_def sample_item_def)
  have k: "load_questions sample_environment ''broken.json'' = Inl (KeyError ''answer'')"
    by (simp add: load_questions_def sample_locate sample_files make_question_def sample_item_def)
  show ?thesis
    using a b c k
      load_questions_outcome[of sample_environment "''missing.json''"]
      load_questions_outcome[of sample_environment "''broken.json''" "''/app/quiz/broken.json''"
        "[(''Geography'', [sample_item\<lparr>item_answer := None\<rparr>])]"]
      load_questions_outcome[of sample_environment "''questions.json''" "''/app/questions.json''"
        "[(''Geography'', [sample_item])]"]
    by (simp add: sample_locate sample_files)
qed

end
